theory Spec2Isabelle
  imports Main
begin

section \<open>Values, objects and draft states\<close>

text \<open>
  The JavaScript heap is an explicit store from addresses to cells. A cell is either a
  plain object (its own properties in enumeration order, and whether it is frozen) or a
  draft handle, which carries its DraftState (\<open>draft[DRAFT_STATE]\<close>). An address
  without a cell is an opaque host object (a Date, a class instance): never drafted.
  Arrays are objects keyed by their indices; property enumerability is kept by a write
  (both branches of the source's write store the value under the same key) and is not
  modelled further. Numbers are integers: NaN and signed zeros are outside the model.
\<close>

type_synonym addr = nat
type_synonym key = string

datatype jsval = Undefined | NOTHING | Prim int | Ref addr

record draft_state =
  base :: addr
  copy :: "addr option"
  modified :: bool
  finalized :: bool
  assigned :: "(key \<times> bool) list"
  scope :: nat
  customDraft :: bool
  revoked :: bool

datatype cell = Plain "(key \<times> jsval) list" bool | Draft draft_state

datatype op = Add | Replace | Remove

record patch =
  op :: op
  path :: "key list"
  pvalue :: "jsval option"

record immer_scope =
  drafts :: "addr list"
  parent :: "nat option"
  patches :: "patch list option"
  inversePatches :: "patch list"
  patchListener :: bool
  canAutoFreeze :: bool

text \<open>
  The world threaded through every operation: the heap, the scopes by identity (a
  DraftState refers to its scope, so scopes live in a store too), the current scope,
  and what the external collaborators have observed: each call of the patch listener
  and of the \<open>onAssign\<close>, \<open>onDelete\<close> and \<open>onCopy\<close> hooks.
\<close>

record world =
  heap :: "addr \<Rightarrow> cell option"
  scopes :: "nat \<Rightarrow> immer_scope"
  current :: "nat option"
  nextAddr :: addr
  nextScope :: nat
  delivered :: "(patch list \<times> patch list) list"
  assignLog :: "(addr \<times> key \<times> jsval) list"
  deleteLog :: "(addr \<times> key) list"
  copyLog :: "addr list"

datatype error =
    NotDraftable
  | NotADraft
  | NotCreatedByCreateDraft
  | AlreadyFinalized
  | DoubleReturn
  | CyclicReference
  | TypeError
  | RecipeError nat

datatype 'a outcome = Done 'a world | Throw error world | OutOfFuel

text \<open>
  The configuration of an Immer instance. The model fixes the accessor (proxy)
  back-end, the only one the specification describes, so \<open>useProxies\<close> is true
  throughout. The hooks are recorders. \<open>generatePatches\<close> lives in a module that
  is not part of the sources; it is a parameter: given the heap, the finalized state
  and its path it yields the forward and inverse patches it pushes.
\<close>

record config =
  autoFreeze :: bool
  onAssign :: bool
  onDelete :: bool
  onCopy :: bool
  generatePatches :: "(addr \<Rightarrow> cell option) \<Rightarrow> draft_state \<Rightarrow> key list \<Rightarrow> patch list \<times> patch list"

section \<open>Helpers of the common module\<close>

fun lookup_prop :: "(key \<times> jsval) list \<Rightarrow> key \<Rightarrow> jsval" where
  "lookup_prop [] k = Undefined"
| "lookup_prop ((k', v) # ps) k = (if k' = k then v else lookup_prop ps k)"

fun set_prop :: "(key \<times> jsval) list \<Rightarrow> key \<Rightarrow> jsval \<Rightarrow> (key \<times> jsval) list" where
  "set_prop [] k v = [(k, v)]"
| "set_prop ((k', v') # ps) k v =
     (if k' = k then (k, v) # ps else (k', v') # set_prop ps k v)"

text \<open>\<open>value[DRAFT_STATE]\<close>: the state of a draft handle, nothing for any other value.\<close>

definition state_of :: "world \<Rightarrow> jsval \<Rightarrow> draft_state option" where
  "state_of w v =
     (case v of
        Ref a \<Rightarrow> (case heap w a of Some (Draft st) \<Rightarrow> Some st | _ \<Rightarrow> None)
      | _ \<Rightarrow> None)"

text \<open>
  Modelled from the spec: \<open>isDraft\<close> and \<open>isDraftable\<close> of the common module are
  missing. A draft is a value that carries a DraftState; a draftable value is a
  sequence or mapping (here: any allocated object, a draft handle included), every
  other value is opaque.
\<close>

definition isDraft :: "world \<Rightarrow> jsval \<Rightarrow> bool" where
  "isDraft w v = (state_of w v \<noteq> None)"

definition isDraftable :: "world \<Rightarrow> jsval \<Rightarrow> bool" where
  "isDraftable w v = (case v of Ref a \<Rightarrow> heap w a \<noteq> None | _ \<Rightarrow> False)"

text \<open>\<open>Object.isFrozen\<close>: true of every primitive, and of a frozen plain object.\<close>

definition isFrozen :: "world \<Rightarrow> jsval \<Rightarrow> bool" where
  "isFrozen w v =
     (case v of
        Ref a \<Rightarrow> (case heap w a of Some (Plain ps fr) \<Rightarrow> fr | _ \<Rightarrow> False)
      | _ \<Rightarrow> True)"

definition props_of :: "world \<Rightarrow> addr \<Rightarrow> (key \<times> jsval) list" where
  "props_of w a = (case heap w a of Some (Plain ps fr) \<Rightarrow> ps | _ \<Rightarrow> [])"

text \<open>\<open>state.base[prop]\<close>\<close>

definition base_prop :: "world \<Rightarrow> draft_state \<Rightarrow> key \<Rightarrow> jsval" where
  "base_prop w st k = lookup_prop (props_of w (base st)) k"

text \<open>\<open>state.assigned[prop]\<close> as a truth value: absent and \<open>false\<close> are both falsy.\<close>

definition assigned_true :: "draft_state \<Rightarrow> key \<Rightarrow> bool" where
  "assigned_true st k = (map_of (assigned st) k = Some True)"

text \<open>
  \<open>parent[prop] = value\<close>. The module is strict code, so a write to a frozen object
  raises; a write to anything but a plain object has no cell to change.
\<close>

definition write_prop :: "world \<Rightarrow> addr \<Rightarrow> key \<Rightarrow> jsval \<Rightarrow> world option" where
  "write_prop w a k v =
     (case heap w a of
        Some (Plain ps fr) \<Rightarrow>
          (if fr then None
           else Some (w\<lparr>heap := (heap w)(a \<mapsto> Plain (set_prop ps k v) False)\<rparr>))
      | _ \<Rightarrow> None)"

definition set_canAutoFreeze :: "nat \<Rightarrow> bool \<Rightarrow> world \<Rightarrow> world" where
  "set_canAutoFreeze sid b w =
     w\<lparr>scopes := (scopes w)(sid := (scopes w sid)\<lparr>canAutoFreeze := b\<rparr>)\<rparr>"

definition set_finalized :: "addr \<Rightarrow> draft_state \<Rightarrow> world \<Rightarrow> world" where
  "set_finalized a st w = w\<lparr>heap := (heap w)(a \<mapsto> Draft (st\<lparr>finalized := True\<rparr>))\<rparr>"

definition freeze :: "addr \<Rightarrow> world \<Rightarrow> world" where
  "freeze a w =
     (case heap w a of
        Some (Plain ps fr) \<Rightarrow> w\<lparr>heap := (heap w)(a \<mapsto> Plain ps True)\<rparr>
      | _ \<Rightarrow> w)"

section \<open>The finalizer\<close>

text \<open>
  What the closure \<open>finalizeProperty\<close> captures from \<open>finalizeTree\<close>: the draft
  handle whose state it reads (if the root was a draft), the root object (the state's
  copy, or the plain root itself), the root path and \<open>needPatches\<close>.
\<close>

record ctx =
  cstate :: "addr option"
  croot :: addr
  crootPath :: "key list option"
  cneedPatches :: bool

definition ctx_state :: "world \<Rightarrow> ctx \<Rightarrow> draft_state option" where
  "ctx_state w c = (case cstate c of None \<Rightarrow> None | Some sa \<Rightarrow> state_of w (Ref sa))"

text \<open>\<open>const isDraftProp = !!state && parent === root\<close>\<close>

definition isDraftProp :: "ctx \<Rightarrow> addr \<Rightarrow> bool" where
  "isDraftProp c par = (cstate c \<noteq> None \<and> par = croot c)"

text \<open>
  The path handed to the nested \<open>finalize\<close>:
  \<open>isDraftProp && needPatches && !state.assigned[prop] ? rootPath.concat(prop) : null\<close>
\<close>

definition childPath :: "world \<Rightarrow> ctx \<Rightarrow> addr \<Rightarrow> key \<Rightarrow> key list option" where
  "childPath w c par prop =
     (case ctx_state w c of
        None \<Rightarrow> None
      | Some st \<Rightarrow>
          (if isDraftProp c par \<and> cneedPatches c \<and> \<not> assigned_true st prop
           then (case crootPath c of None \<Rightarrow> None | Some rp \<Rightarrow> Some (rp @ [prop]))
           else None))"

text \<open>\<open>if (isDraftProp && this.onAssign) this.onAssign(state, prop, value)\<close>\<close>

definition fireOnAssign :: "config \<Rightarrow> ctx \<Rightarrow> addr \<Rightarrow> key \<Rightarrow> jsval \<Rightarrow> world \<Rightarrow> world" where
  "fireOnAssign cfg c par prop v w =
     (case cstate c of
        None \<Rightarrow> w
      | Some sa \<Rightarrow>
          (if isDraftProp c par \<and> onAssign cfg
           then w\<lparr>assignLog := assignLog w @ [(sa, prop, v)]\<rparr> else w))"

text \<open>\<open>isDraftProp && value === state.base[prop]\<close>\<close>

definition unchangedProp :: "world \<Rightarrow> ctx \<Rightarrow> addr \<Rightarrow> key \<Rightarrow> jsval \<Rightarrow> bool" where
  "unchangedProp w c par prop v =
     (case ctx_state w c of
        None \<Rightarrow> False
      | Some st \<Rightarrow> isDraftProp c par \<and> v = base_prop w st prop)"

text \<open>
  The tail of \<open>finalize\<close> once the tree below a modified state has been finalized
  (the state is re-read: it is an object, and the walk may have touched it):
  the \<open>onDelete\<close> hook for every key whose \<open>assigned\<close> entry is false, the
  \<open>onCopy\<close> hook, the freeze, and the patches of this node.
\<close>

definition fireOnDelete :: "config \<Rightarrow> addr \<Rightarrow> draft_state \<Rightarrow> world \<Rightarrow> world" where
  "fireOnDelete cfg a st w =
     (if onDelete cfg
      then w\<lparr>deleteLog := deleteLog w @ map (\<lambda>(k, b). (a, k)) (filter (\<lambda>(k, b). \<not> b) (assigned st))\<rparr>
      else w)"

definition fireOnCopy :: "config \<Rightarrow> addr \<Rightarrow> world \<Rightarrow> world" where
  "fireOnCopy cfg a w = (if onCopy cfg then w\<lparr>copyLog := copyLog w @ [a]\<rparr> else w)"

definition autoFreezeCopy :: "config \<Rightarrow> nat \<Rightarrow> draft_state \<Rightarrow> world \<Rightarrow> world" where
  "autoFreezeCopy cfg sid st w =
     (if autoFreeze cfg \<and> canAutoFreeze (scopes w sid)
      then (case copy st of None \<Rightarrow> w | Some c \<Rightarrow> freeze c w)
      else w)"

definition pushPatches :: "config \<Rightarrow> nat \<Rightarrow> draft_state \<Rightarrow> key list option \<Rightarrow> world \<Rightarrow> world" where
  "pushPatches cfg sid st pth w =
     (case pth of
        None \<Rightarrow> w
      | Some p \<Rightarrow>
          (case patches (scopes w sid) of
             None \<Rightarrow> w
           | Some ps \<Rightarrow>
               (let (fwd, inv) = generatePatches cfg (heap w) st p
                in w\<lparr>scopes := (scopes w)(sid := (scopes w sid)
                       \<lparr>patches := Some (ps @ fwd),
                        inversePatches := inversePatches (scopes w sid) @ inv\<rparr>)\<rparr>)))"

definition finishFinalize :: "config \<Rightarrow> nat \<Rightarrow> addr \<Rightarrow> key list option \<Rightarrow> world \<Rightarrow> world" where
  "finishFinalize cfg sid a pth w =
     (case state_of w (Ref a) of
        None \<Rightarrow> w
      | Some st \<Rightarrow>
          pushPatches cfg sid st pth
            (autoFreezeCopy cfg sid st (fireOnCopy cfg a (fireOnDelete cfg a st w))))"

definition copy_val :: "world \<Rightarrow> addr \<Rightarrow> jsval" where
  "copy_val w a =
     (case state_of w (Ref a) of
        Some st \<Rightarrow> (case copy st of Some c \<Rightarrow> Ref c | None \<Rightarrow> Undefined)
      | None \<Rightarrow> Undefined)"

text \<open>
  \<open>each(value, cb)\<close>: the keys of the object are taken when the loop starts, each
  value is read when its turn comes, and a raise of the callback ends the loop.
\<close>

fun each_loop :: "(key \<Rightarrow> jsval \<Rightarrow> addr \<Rightarrow> world \<Rightarrow> unit outcome) \<Rightarrow> addr \<Rightarrow> key list \<Rightarrow> world \<Rightarrow> unit outcome" where
  "each_loop cb par [] w = Done () w"
| "each_loop cb par (k # ks) w =
     (case cb k (lookup_prop (props_of w par) k) par w of
        Done u w1 \<Rightarrow> each_loop cb par ks w1
      | Throw e w1 \<Rightarrow> Throw e w1
      | OutOfFuel \<Rightarrow> OutOfFuel)"

definition each :: "(key \<Rightarrow> jsval \<Rightarrow> addr \<Rightarrow> world \<Rightarrow> unit outcome) \<Rightarrow> addr \<Rightarrow> world \<Rightarrow> unit outcome" where
  "each cb a w = each_loop cb a (map fst (props_of w a)) w"

text \<open>
  \<open>finalize\<close>, \<open>finalizeTree\<close> and \<open>finalizeProperty\<close> call one another through
  the heap, which may be cyclic. The recursion is cut at \<open>finalizeProperty\<close>, which
  carries fuel (\<open>OutOfFuel\<close> stands for a walk that does not return); the bodies of
  \<open>finalizeTree\<close> and \<open>finalize\<close> take the callback they run as \<open>fp\<close>.
\<close>

definition finalizeTree_of ::
  "(ctx \<Rightarrow> key \<Rightarrow> jsval \<Rightarrow> addr \<Rightarrow> world \<Rightarrow> unit outcome) \<Rightarrow> jsval \<Rightarrow> key list option \<Rightarrow> nat \<Rightarrow> world \<Rightarrow> jsval outcome" where
  "finalizeTree_of fp root rootPath sid w =
     (case root of
        Ref ra \<Rightarrow>
          (case state_of w root of
             Some st \<Rightarrow>
               (case copy st of
                  None \<Rightarrow> Throw TypeError w
                | Some c \<Rightarrow>
                    (case each (fp \<lparr>cstate = Some ra, croot = c, crootPath = rootPath,
                                   cneedPatches = (rootPath \<noteq> None \<and> patches (scopes w sid) \<noteq> None)\<rparr>) c w of
                       Done u w1 \<Rightarrow> Done (Ref c) w1
                     | Throw e w1 \<Rightarrow> Throw e w1
                     | OutOfFuel \<Rightarrow> OutOfFuel))
           | None \<Rightarrow>
               (case each (fp \<lparr>cstate = None, croot = ra, crootPath = rootPath,
                              cneedPatches = (rootPath \<noteq> None \<and> patches (scopes w sid) \<noteq> None)\<rparr>) ra w of
                  Done u w1 \<Rightarrow> Done root w1
                | Throw e w1 \<Rightarrow> Throw e w1
                | OutOfFuel \<Rightarrow> OutOfFuel))
      | _ \<Rightarrow> Done root w)"

definition finalize_of ::
  "config \<Rightarrow> (ctx \<Rightarrow> key \<Rightarrow> jsval \<Rightarrow> addr \<Rightarrow> world \<Rightarrow> unit outcome) \<Rightarrow> jsval \<Rightarrow> key list option \<Rightarrow> nat \<Rightarrow> world \<Rightarrow> jsval outcome" where
  "finalize_of cfg fp draft pth sid w =
     (case state_of w draft of
        None \<Rightarrow>
          (if isFrozen w draft then Done draft w
           else finalizeTree_of fp draft None sid w)
      | Some st \<Rightarrow>
          (if scope st \<noteq> sid then Done draft w
           else if \<not> modified st then Done (Ref (base st)) w
           else if \<not> finalized st then
             (case draft of
                Ref a \<Rightarrow>
                  (case finalizeTree_of fp draft pth sid (set_finalized a st w) of
                     Done r w1 \<Rightarrow>
                       (let w2 = finishFinalize cfg sid a pth w1 in Done (copy_val w2 a) w2)
                   | Throw e w1 \<Rightarrow> Throw e w1
                   | OutOfFuel \<Rightarrow> OutOfFuel)
              | _ \<Rightarrow> Done draft w)
           else Done (case copy st of Some c \<Rightarrow> Ref c | None \<Rightarrow> Undefined) w))"

primrec finalizeProperty ::
  "config \<Rightarrow> nat \<Rightarrow> nat \<Rightarrow> ctx \<Rightarrow> key \<Rightarrow> jsval \<Rightarrow> addr \<Rightarrow> world \<Rightarrow> unit outcome" where
  "finalizeProperty cfg sid 0 = (\<lambda>c prop v par w. OutOfFuel)"
| "finalizeProperty cfg sid (Suc n) = (\<lambda>c prop v par w.
     if v = Ref par then Throw CyclicReference w
     else if isDraft w v then
       (case finalize_of cfg (finalizeProperty cfg sid n) v (childPath w c par prop) sid w of
          Done v' w1 \<Rightarrow>
            (let w2 = (if isDraft w1 v' then set_canAutoFreeze sid False w1 else w1)
             in case write_prop w2 par prop v' of
                  None \<Rightarrow> Throw TypeError w2
                | Some w3 \<Rightarrow>
                    (if unchangedProp w3 c par prop v' then Done () w3
                     else Done () (fireOnAssign cfg c par prop v' w3)))
        | Throw e w1 \<Rightarrow> Throw e w1
        | OutOfFuel \<Rightarrow> OutOfFuel)
     else if unchangedProp w c par prop v then Done () w
     else if isDraftable w v \<and> \<not> isFrozen w v then
       (case v of
          Ref va \<Rightarrow>
            (case each (finalizeProperty cfg sid n c) va w of
               Done u w1 \<Rightarrow> Done () (fireOnAssign cfg c par prop v w1)
             | Throw e w1 \<Rightarrow> Throw e w1
             | OutOfFuel \<Rightarrow> OutOfFuel)
        | _ \<Rightarrow> Done () (fireOnAssign cfg c par prop v w))
     else Done () (fireOnAssign cfg c par prop v w))"


definition finalize :: "config \<Rightarrow> nat \<Rightarrow> jsval \<Rightarrow> key list option \<Rightarrow> nat \<Rightarrow> world \<Rightarrow> jsval outcome" where
  "finalize cfg n draft pth sid w = finalize_of cfg (finalizeProperty cfg sid n) draft pth sid w"

section \<open>Scopes and draft creation\<close>

text \<open>
  Modelled from the spec: the scope module (\<open>ImmerScope\<close>) is missing. \<open>enter\<close>
  pushes a new scope as the current one and records its parent; \<open>leave\<close> pops it
  back to the parent without invalidating drafts; \<open>revoke\<close> leaves the scope and
  invalidates every draft it owns; \<open>usePatches\<close> installs empty accumulators if the
  caller passed a listener.
\<close>

definition enter :: "world \<Rightarrow> nat \<times> world" where
  "enter w =
     (nextScope w,
      w\<lparr>scopes := (scopes w)(nextScope w :=
            \<lparr>drafts = [], parent = current w, patches = None, inversePatches = [],
             patchListener = False, canAutoFreeze = True\<rparr>),
        current := Some (nextScope w),
        nextScope := Suc (nextScope w)\<rparr>)"

definition leave :: "nat \<Rightarrow> world \<Rightarrow> world" where
  "leave sid w = (if current w = Some sid then w\<lparr>current := parent (scopes w sid)\<rparr> else w)"

definition revoke_draft :: "addr \<Rightarrow> world \<Rightarrow> world" where
  "revoke_draft a w =
     (case heap w a of
        Some (Draft st) \<Rightarrow> w\<lparr>heap := (heap w)(a \<mapsto> Draft (st\<lparr>revoked := True\<rparr>))\<rparr>
      | _ \<Rightarrow> w)"

definition revoke :: "nat \<Rightarrow> world \<Rightarrow> world" where
  "revoke sid w = fold revoke_draft (drafts (scopes w sid)) (leave sid w)"

definition usePatches :: "nat \<Rightarrow> bool \<Rightarrow> world \<Rightarrow> world" where
  "usePatches sid listener w =
     (if listener
      then w\<lparr>scopes := (scopes w)(sid := (scopes w sid)
              \<lparr>patches := Some [], inversePatches := [], patchListener := True\<rparr>)\<rparr>
      else w)"

text \<open>
  Modelled from the spec: \<open>createProxy\<close> of the proxy module is missing. It wraps the
  base in a fresh draft handle whose state is unmodified, without a copy, owned by
  the scope the caller has just entered, and appends the handle to that scope's
  drafts. The same module's \<open>willFinalize\<close> does nothing for this back-end.
\<close>

definition createProxy :: "addr \<Rightarrow> nat \<Rightarrow> world \<Rightarrow> addr \<times> world" where
  "createProxy b sid w =
     (nextAddr w,
      w\<lparr>heap := (heap w)(nextAddr w \<mapsto>
            Draft \<lparr>base = b, copy = None, modified = False, finalized = False,
                   assigned = [], scope = sid, customDraft = False, revoked = False\<rparr>),
        scopes := (scopes w)(sid := (scopes w sid)\<lparr>drafts := drafts (scopes w sid) @ [nextAddr w]\<rparr>),
        nextAddr := Suc (nextAddr w)\<rparr>)"

section \<open>The Immer class\<close>

text \<open>
  A recipe runs against the world and completes by raising, by returning a value, or
  by returning a promise; the promise settles later, from the world of that moment,
  by rejecting with an error or resolving with a value.
\<close>

datatype completion =
    Raise error
  | Return jsval
  | ReturnPromise "world \<Rightarrow> (error + jsval) \<times> world"

type_synonym recipe = "jsval \<Rightarrow> world \<Rightarrow> completion \<times> world"

text \<open>
  What \<open>produce\<close> hands back: a synchronous outcome, or a promise (returned in the
  given world) together with what the promise settles to once it is run.
\<close>

datatype produced = Sync "jsval outcome" | Async world "world \<Rightarrow> jsval outcome"

text \<open>\<open>return result !== NOTHING ? result : undefined\<close>\<close>

definition unwrapNothing :: "jsval \<Rightarrow> jsval" where
  "unwrapNothing r = (if r \<noteq> NOTHING then r else Undefined)"

text \<open>
  The end of \<open>processResult\<close>: revoke the scope, hand the accumulated patches to the
  listener if recording is on, return the result.
\<close>

definition deliverPatches :: "nat \<Rightarrow> world \<Rightarrow> world" where
  "deliverPatches sid w =
     (case patches (scopes w sid) of
        None \<Rightarrow> w
      | Some ps \<Rightarrow> w\<lparr>delivered := delivered w @ [(ps, inversePatches (scopes w sid))]\<rparr>)"

definition pushReplace :: "nat \<Rightarrow> jsval \<Rightarrow> addr \<Rightarrow> world \<Rightarrow> world" where
  "pushReplace sid r b w =
     (case patches (scopes w sid) of
        None \<Rightarrow> w
      | Some ps \<Rightarrow>
          w\<lparr>scopes := (scopes w)(sid := (scopes w sid)
               \<lparr>patches := Some (ps @ [\<lparr>op = Replace, path = [], pvalue = Some r\<rparr>]),
                inversePatches := inversePatches (scopes w sid)
                   @ [\<lparr>op = Replace, path = [], pvalue = Some (Ref b)\<rparr>]\<rparr>)\<rparr>)"

definition completeResult :: "nat \<Rightarrow> jsval \<Rightarrow> world \<Rightarrow> jsval outcome" where
  "completeResult sid r w = Done (unwrapNothing r) (deliverPatches sid (revoke sid w))"

text \<open>
  \<open>processResult(result, scope)\<close>. The base draft is \<open>scope.drafts[0]\<close>; reading
  the state of a missing base draft is the host's TypeError. The \<open>base\<close> field of a
  state is never written by this class, so the inverse patch reads it from the state
  as it was on entry.
\<close>

definition processResult :: "config \<Rightarrow> nat \<Rightarrow> jsval \<Rightarrow> nat \<Rightarrow> world \<Rightarrow> jsval outcome" where
  "processResult cfg n result sid w =
     (case drafts (scopes w sid) of
        [] \<Rightarrow> Throw TypeError w
      | bd # ds \<Rightarrow>
          (if result \<noteq> Undefined \<and> result \<noteq> Ref bd then
             (case state_of w (Ref bd) of
                None \<Rightarrow> Throw TypeError w
              | Some st \<Rightarrow>
                  (if modified st then Throw DoubleReturn (revoke sid w)
                   else
                     (case (if isDraftable w result then finalize cfg n result None sid w
                            else Done result w) of
                        Done r w1 \<Rightarrow> completeResult sid r (pushReplace sid r (base st) w1)
                      | Throw e w1 \<Rightarrow> Throw e w1
                      | OutOfFuel \<Rightarrow> OutOfFuel)))
           else
             (case finalize cfg n (Ref bd) (Some []) sid w of
                Done r w1 \<Rightarrow> completeResult sid r w1
              | Throw e w1 \<Rightarrow> Throw e w1
              | OutOfFuel \<Rightarrow> OutOfFuel)))"

text \<open>
  \<open>produce(base, recipe, patchListener)\<close>, after the curried form and the argument
  checks (the recipe is a function by its type; \<open>listener\<close> tells whether a patch
  listener was passed).
\<close>

definition produce :: "config \<Rightarrow> nat \<Rightarrow> jsval \<Rightarrow> recipe \<Rightarrow> bool \<Rightarrow> world \<Rightarrow> produced" where
  "produce cfg n b rcp listener w =
     (if isDraftable w b then
        (case b of
           Ref ba \<Rightarrow>
             (let (sid, w1) = enter w;
                  (proxy, w2) = createProxy ba sid w1
              in case rcp (Ref proxy) w2 of
                   (Raise e, w3) \<Rightarrow> Sync (Throw e (revoke sid w3))
                 | (Return result, w3) \<Rightarrow>
                     Sync (processResult cfg n result sid (usePatches sid listener (leave sid w3)))
                 | (ReturnPromise p, w3) \<Rightarrow>
                     Async (leave sid w3)
                       (\<lambda>w4. case p w4 of
                                (Inr result, w5) \<Rightarrow>
                                  processResult cfg n result sid (usePatches sid listener w5)
                              | (Inl e, w5) \<Rightarrow> Throw e (revoke sid w5)))
         | _ \<Rightarrow> Sync (Throw TypeError w))
      else
        (case rcp b w of
           (Raise e, w1) \<Rightarrow> Sync (Throw e w1)
         | (Return result, w1) \<Rightarrow>
             (if result = Undefined then Sync (Done b w1)
              else Sync (Done (unwrapNothing result) w1))
         | (ReturnPromise p, w1) \<Rightarrow>
             Async w1 (\<lambda>w2. case p w2 of
                              (Inr result, w3) \<Rightarrow> Done result w3
                            | (Inl e, w3) \<Rightarrow> Throw e w3)))"

definition mark_customDraft :: "addr \<Rightarrow> world \<Rightarrow> world" where
  "mark_customDraft a w =
     (case heap w a of
        Some (Draft st) \<Rightarrow> w\<lparr>heap := (heap w)(a \<mapsto> Draft (st\<lparr>customDraft := True\<rparr>))\<rparr>
      | _ \<Rightarrow> w)"

definition createDraft :: "jsval \<Rightarrow> world \<Rightarrow> jsval outcome" where
  "createDraft b w =
     (if \<not> isDraftable w b then Throw NotDraftable w
      else
        (case b of
           Ref ba \<Rightarrow>
             (let (sid, w1) = enter w;
                  (proxy, w2) = createProxy ba sid w1
              in Done (Ref proxy) (mark_customDraft proxy (leave sid w2)))
         | _ \<Rightarrow> Throw NotDraftable w))"

definition finishDraft :: "config \<Rightarrow> nat \<Rightarrow> jsval \<Rightarrow> bool \<Rightarrow> world \<Rightarrow> jsval outcome" where
  "finishDraft cfg n draft listener w =
     (case state_of w draft of
        None \<Rightarrow> Throw NotADraft w
      | Some st \<Rightarrow>
          (if \<not> customDraft st then Throw NotCreatedByCreateDraft w
           else if finalized st then Throw AlreadyFinalized w
           else processResult cfg n Undefined (scope st) (usePatches (scope st) listener w)))"

section \<open>Concrete updates\<close>

text \<open>
  Modelled from the spec: \<open>generatePatches\<close> of the patches module is missing. For a
  mapping, every key whose \<open>assigned\<close> entry is true yields \<open>add\<close> if the key is absent
  from the base, else \<open>replace\<close>, with the new value, and the inverse \<open>replace\<close> with
  the old value or \<open>remove\<close>; every key whose entry is false yields \<open>remove\<close> with the
  inverse \<open>add\<close> of the base value; other keys are skipped.
\<close>

definition cell_props :: "(addr \<Rightarrow> cell option) \<Rightarrow> addr \<Rightarrow> (key \<times> jsval) list" where
  "cell_props h a = (case h a of Some (Plain ps fr) \<Rightarrow> ps | _ \<Rightarrow> [])"

definition generatePatches_spec :: "(addr \<Rightarrow> cell option) \<Rightarrow> draft_state \<Rightarrow> key list \<Rightarrow> patch list \<times> patch list" where
  "generatePatches_spec h st basePath =
     (let bps = cell_props h (base st);
          cps = (case copy st of Some c \<Rightarrow> cell_props h c | None \<Rightarrow> [])
      in (map (\<lambda>(k, b).
                 if b then \<lparr>op = (if k \<in> set (map fst bps) then Replace else Add),
                            path = basePath @ [k], pvalue = Some (lookup_prop cps k)\<rparr>
                 else \<lparr>op = Remove, path = basePath @ [k], pvalue = None\<rparr>) (assigned st),
          map (\<lambda>(k, b).
                 if b then
                   (if k \<in> set (map fst bps)
                    then \<lparr>op = Replace, path = basePath @ [k], pvalue = Some (lookup_prop bps k)\<rparr>
                    else \<lparr>op = Remove, path = basePath @ [k], pvalue = None\<rparr>)
                 else \<lparr>op = Add, path = basePath @ [k], pvalue = Some (lookup_prop bps k)\<rparr>) (assigned st)))"

definition cfg0 :: config where
  "cfg0 = \<lparr>autoFreeze = True, onAssign = True, onDelete = True, onCopy = True,
           generatePatches = generatePatches_spec\<rparr>"

definition scope0 :: immer_scope where
  "scope0 = \<lparr>drafts = [], parent = None, patches = None, inversePatches = [],
             patchListener = False, canAutoFreeze = True\<rparr>"

definition world_of :: "(addr \<Rightarrow> cell option) \<Rightarrow> addr \<Rightarrow> world" where
  "world_of h n =
     \<lparr>heap = h, scopes = (\<lambda>i. scope0), current = None, nextAddr = n, nextScope = 0,
      delivered = [], assignLog = [], deleteLog = [], copyLog = []\<rparr>"

text \<open>The base \<open>{a: 1, b: {c: 2}}\<close>: the root at address 0, \<open>b\<close> at address 1.\<close>

definition heapA :: "addr \<Rightarrow> cell option" where
  "heapA = [0 \<mapsto> Plain [(''a'', Prim 1), (''b'', Ref 1)] False,
            1 \<mapsto> Plain [(''c'', Prim 2)] False]"

definition worldA :: world where
  "worldA = world_of heapA 2"

text \<open>
  The recipe \<open>draft.b.c = 3\<close> as the accessor back-end carries it out: reading
  \<open>draft.b\<close> makes a child draft of the object at address 1 in the same scope; the
  write gives the child a copy holding \<open>c: 3\<close> and marks \<open>c\<close> assigned; the change
  propagates to the root, whose copy holds the child draft under \<open>b\<close> and whose
  \<open>assigned\<close> map stays empty. The recipe returns nothing.
\<close>

definition mkState :: "addr \<Rightarrow> addr option \<Rightarrow> bool \<Rightarrow> (key \<times> bool) list \<Rightarrow> nat \<Rightarrow> draft_state" where
  "mkState b c m asg sid =
     \<lparr>base = b, copy = c, modified = m, finalized = False, assigned = asg, scope = sid,
      customDraft = False, revoked = False\<rparr>"


text \<open>Recipes that fail: one raises, one returns a promise that rejects.\<close>

definition recipe_raise :: recipe where
  "recipe_raise d w = (Raise (RecipeError 7), w)"

definition reject_later :: "world \<Rightarrow> (error + jsval) \<times> world" where
  "reject_later w = (Inl (RecipeError 7), w)"

definition recipe_reject :: recipe where
  "recipe_reject d w = (ReturnPromise reject_later, w)"

section \<open>Notions used to state the properties\<close>

text \<open>
  The world in which \<open>produce\<close> starts the recipe of a draftable base: a new scope
  \<open>nextScope w\<close> has been entered and the root draft \<open>nextAddr w\<close> created in it.
\<close>


definition recipeWorld :: "addr \<Rightarrow> world \<Rightarrow> world" where
  "recipeWorld ba w = snd (createProxy ba (nextScope w) (snd (enter w)))"

definition scopeRevoked :: "nat \<Rightarrow> world \<Rightarrow> bool" where
  "scopeRevoked sid w =
     list_all (\<lambda>a. case heap w a of Some (Draft st) \<Rightarrow> revoked st | _ \<Rightarrow> True) (drafts (scopes w sid))"

text \<open>A draft handle is inert once its state is marked revoked.\<close>

definition is_revoked :: "world \<Rightarrow> addr \<Rightarrow> bool" where
  "is_revoked w a = (case heap w a of Some (Draft st) \<Rightarrow> revoked st | _ \<Rightarrow> True)"

text \<open>The recipe \<open>draft.a = 2; return v\<close>: the root draft gets a copy and is modified.\<close>

definition recipe_set_a_return :: "jsval \<Rightarrow> recipe" where
  "recipe_set_a_return v d w =
     (case d of
        Ref p \<Rightarrow>
          (case state_of w d of
             Some st \<Rightarrow>
               (Return v,
                w\<lparr>heap := (heap w)
                     (nextAddr w \<mapsto> Plain (set_prop (props_of w (base st)) ''a'' (Prim 2)) False,
                      p \<mapsto> Draft (st\<lparr>copy := Some (nextAddr w), modified := True,
                                      assigned := [(''a'', True)]\<rparr>)),
                  nextAddr := Suc (nextAddr w)\<rparr>)
           | None \<Rightarrow> (Raise TypeError, w))
      | _ \<Rightarrow> (Raise TypeError, w))"

text \<open>The recipe \<open>return v\<close>, which touches nothing.\<close>

definition recipe_return :: "jsval \<Rightarrow> recipe" where
  "recipe_return v d w = (Return v, w)"

text \<open>What a caller of \<open>produce\<close> sees of a synchronous call: the result, or the error.\<close>

definition result_of :: "produced \<Rightarrow> jsval option" where
  "result_of r = (case r of Sync (Done v w) \<Rightarrow> Some v | _ \<Rightarrow> None)"

definition error_of :: "produced \<Rightarrow> error option" where
  "error_of r = (case r of Sync (Throw e w) \<Rightarrow> Some e | _ \<Rightarrow> None)"

definition world_after :: "produced \<Rightarrow> world option" where
  "world_after r =
     (case r of Sync (Done v w) \<Rightarrow> Some w | Sync (Throw e w) \<Rightarrow> Some w | _ \<Rightarrow> None)"

definition outcome_value :: "'a outcome \<Rightarrow> 'a option" where
  "outcome_value r = (case r of Done v w \<Rightarrow> Some v | _ \<Rightarrow> None)"

definition outcome_error :: "'a outcome \<Rightarrow> error option" where
  "outcome_error r = (case r of Throw e w \<Rightarrow> Some e | _ \<Rightarrow> None)"

text \<open>
  A client of the two-phase interface: \<open>d = createDraft(b)\<close>, then the mutation
  \<open>mut\<close> on \<open>d\<close>, then \<open>finishDraft(d)\<close> twice. The pair holds the outcomes of
  the two calls of \<open>finishDraft\<close>.
\<close>

definition finishDraft_twice :: "config \<Rightarrow> nat \<Rightarrow> jsval \<Rightarrow> recipe \<Rightarrow> world \<Rightarrow> jsval outcome \<times> jsval outcome" where
  "finishDraft_twice cfg n b mut w =
     (case createDraft b w of
        Done d w1 \<Rightarrow>
          (case finishDraft cfg n d False (snd (mut d w1)) of
             Done r w2 \<Rightarrow> (Done r w2, finishDraft cfg n d False w2)
           | Throw e w2 \<Rightarrow> (Throw e w2, Throw e w2)
           | OutOfFuel \<Rightarrow> (OutOfFuel, OutOfFuel))
      | Throw e w1 \<Rightarrow> (Throw e w1, Throw e w1)
      | OutOfFuel \<Rightarrow> (OutOfFuel, OutOfFuel))"

text \<open>
  The recipe \<open>draft.self = draft\<close>: the root draft gets a copy of its base in which
  \<open>self\<close> holds the draft handle, and \<open>self\<close> is marked assigned.
\<close>

definition recipe_self :: recipe where
  "recipe_self d w =
     (case d of
        Ref p \<Rightarrow>
          (case state_of w d of
             Some st \<Rightarrow>
               (Return Undefined,
                w\<lparr>heap := (heap w)
                     (nextAddr w \<mapsto> Plain (set_prop (props_of w (base st)) ''self'' (Ref p)) False,
                      p \<mapsto> Draft (st\<lparr>copy := Some (nextAddr w), modified := True,
                                      assigned := [(''self'', True)]\<rparr>)),
                  nextAddr := Suc (nextAddr w)\<rparr>)
           | None \<Rightarrow> (Raise TypeError, w))
      | _ \<Rightarrow> (Raise TypeError, w))"

text \<open>
  The recipe \<open>const o = {}; o.self = o; draft.x = o\<close>: a new plain object that holds
  itself is stored in the root draft's copy.
\<close>

definition recipe_plain_self :: recipe where
  "recipe_plain_self d w =
     (case d of
        Ref p \<Rightarrow>
          (case state_of w d of
             Some st \<Rightarrow>
               (Return Undefined,
                w\<lparr>heap := (heap w)
                     (nextAddr w \<mapsto> Plain [(''self'', Ref (nextAddr w))] False,
                      Suc (nextAddr w) \<mapsto>
                        Plain (set_prop (props_of w (base st)) ''x'' (Ref (nextAddr w))) False,
                      p \<mapsto> Draft (st\<lparr>copy := Some (Suc (nextAddr w)), modified := True,
                                      assigned := [(''x'', True)]\<rparr>)),
                  nextAddr := Suc (Suc (nextAddr w))\<rparr>)
           | None \<Rightarrow> (Raise TypeError, w))
      | _ \<Rightarrow> (Raise TypeError, w))"

text \<open>
  A relation \<open>R\<close> between worlds is kept by the finalizer if it is reflexive and
  transitive and holds across each primitive step; \<open>G\<close> tells for which paths the
  tail of \<open>finalize\<close> keeps it and \<open>C\<close> which closures hand on such paths.
\<close>

definition kept_by_steps ::
  "config \<Rightarrow> nat \<Rightarrow> (world \<Rightarrow> world \<Rightarrow> bool) \<Rightarrow> (key list option \<Rightarrow> bool) \<Rightarrow> (ctx \<Rightarrow> bool) \<Rightarrow> bool" where
  "kept_by_steps cfg sid R G C =
     ((\<forall>w. R w w) \<and> (\<forall>a b c. R a b \<longrightarrow> R b c \<longrightarrow> R a c)
      \<and> (\<forall>a st w. R w (set_finalized a st w))
      \<and> (\<forall>w a k v w'. write_prop w a k v = Some w' \<longrightarrow> R w w')
      \<and> (\<forall>w. R w (set_canAutoFreeze sid False w))
      \<and> (\<forall>c par prop v w. R w (fireOnAssign cfg c par prop v w))
      \<and> (\<forall>a pth w. G pth \<longrightarrow> R w (finishFinalize cfg sid a pth w))
      \<and> G None
      \<and> (\<forall>w c par prop. C c \<longrightarrow> G (childPath w c par prop))
      \<and> (\<forall>pth ra c b. G pth \<longrightarrow> C \<lparr>cstate = ra, croot = c, crootPath = pth, cneedPatches = (pth \<noteq> None \<and> b)\<rparr>))"

definition cb_keeps :: "(world \<Rightarrow> world \<Rightarrow> bool) \<Rightarrow> (key \<Rightarrow> jsval \<Rightarrow> addr \<Rightarrow> world \<Rightarrow> unit outcome) \<Rightarrow> bool" where
  "cb_keeps R cb = (\<forall>k v par w u w'. cb k v par w = Done u w' \<longrightarrow> R w w')"

text \<open>What the patch listener of scope \<open>sid\<close> would be handed, and has been handed, is the same in both worlds.\<close>

definition same_patches :: "nat \<Rightarrow> world \<Rightarrow> world \<Rightarrow> bool" where
  "same_patches sid w w' =
     (patches (scopes w' sid) = patches (scopes w sid)
      \<and> inversePatches (scopes w' sid) = inversePatches (scopes w sid)
      \<and> delivered w' = delivered w)"


text \<open>Auto-freeze, once disabled for scope \<open>sid\<close>, stays disabled.\<close>

definition stays_disabled :: "nat \<Rightarrow> world \<Rightarrow> world \<Rightarrow> bool" where
  "stays_disabled sid w w' =
     (\<not> canAutoFreeze (scopes w sid) \<longrightarrow> \<not> canAutoFreeze (scopes w' sid))"

text \<open>
  A base \<open>{a: 1}\<close> at address 0 and, at address 1, a draft of it that belongs to
  another scope (scope 7); the recipe \<open>draft.f = other\<close> stores that foreign draft in
  the root draft's copy.
\<close>

definition heapF :: "addr \<Rightarrow> cell option" where
  "heapF = [0 \<mapsto> Plain [(''a'', Prim 1)] False, 1 \<mapsto> Draft (mkState 0 None False [] 7)]"

definition worldF :: world where
  "worldF = world_of heapF 2"

definition recipe_set_foreign :: recipe where
  "recipe_set_foreign d w =
     (case d of
        Ref p \<Rightarrow>
          (case state_of w d of
             Some st \<Rightarrow>
               (Return Undefined,
                w\<lparr>heap := (heap w)
                     (nextAddr w \<mapsto> Plain (set_prop (props_of w (base st)) ''f'' (Ref 1)) False,
                      p \<mapsto> Draft (st\<lparr>copy := Some (nextAddr w), modified := True,
                                      assigned := [(''f'', True)]\<rparr>)),
                  nextAddr := Suc (nextAddr w)\<rparr>)
           | None \<Rightarrow> (Raise TypeError, w))
      | _ \<Rightarrow> (Raise TypeError, w))"

text \<open>The closure of a walk over the plain object at address \<open>a\<close>, without patches.\<close>

definition plain_ctx :: "addr \<Rightarrow> ctx" where
  "plain_ctx a = \<lparr>cstate = None, croot = a, crootPath = None, cneedPatches = False\<rparr>"

definition heapP :: "addr \<Rightarrow> cell option" where
  "heapP = heapF(2 \<mapsto> Plain [(''f'', Ref 1)] False)"

definition worldP :: world where
  "worldP = world_of heapP 3"






section \<open>Properties\<close>

subsection \<open>Scopes\<close>

lemma produce_draftable:
  "isDraftable w (Ref ba) \<Longrightarrow>
   produce cfg n (Ref ba) rcp l w =
     (case rcp (Ref (nextAddr w)) (recipeWorld ba w) of
        (Raise e, w3) \<Rightarrow> Sync (Throw e (revoke (nextScope w) w3))
      | (Return result, w3) \<Rightarrow>
          Sync (processResult cfg n result (nextScope w) (usePatches (nextScope w) l (leave (nextScope w) w3)))
      | (ReturnPromise p, w3) \<Rightarrow>
          Async (leave (nextScope w) w3)
            (\<lambda>w4. case p w4 of
                     (Inr result, w5) \<Rightarrow>
                       processResult cfg n result (nextScope w) (usePatches (nextScope w) l w5)
                   | (Inl e, w5) \<Rightarrow> Throw e (revoke (nextScope w) w5)))"
  by (simp add: produce_def recipeWorld_def enter_def createProxy_def)

lemma revoke_draft_scopes [simp]: "scopes (revoke_draft a w) = scopes w"
  by (simp add: revoke_draft_def split: option.splits cell.splits)

lemma revoke_draft_delivered [simp]: "delivered (revoke_draft a w) = delivered w"
  by (simp add: revoke_draft_def split: option.splits cell.splits)

lemma fold_revoke_scopes [simp]: "scopes (fold revoke_draft ds w) = scopes w"
  by (induction ds arbitrary: w) simp_all

lemma fold_revoke_delivered [simp]: "delivered (fold revoke_draft ds w) = delivered w"
  by (induction ds arbitrary: w) simp_all

lemma leave_scopes [simp]: "scopes (leave sid w) = scopes w"
  by (simp add: leave_def)

lemma leave_delivered [simp]: "delivered (leave sid w) = delivered w"
  by (simp add: leave_def)

lemma leave_heap [simp]: "heap (leave sid w) = heap w"
  by (simp add: leave_def)

lemma revoke_scopes [simp]: "scopes (revoke sid w) = scopes w"
  by (simp add: revoke_def)

lemma revoke_delivered [simp]: "delivered (revoke sid w) = delivered w"
  by (simp add: revoke_def)

lemma revoke_draft_keeps: "is_revoked w a \<Longrightarrow> is_revoked (revoke_draft b w) a"
  by (auto simp: is_revoked_def revoke_draft_def split: option.splits cell.splits)

lemma revoke_draft_self: "is_revoked (revoke_draft a w) a"
  by (auto simp: is_revoked_def revoke_draft_def split: option.splits cell.splits)

lemma fold_revoke_keeps: "is_revoked w a \<Longrightarrow> is_revoked (fold revoke_draft ds w) a"
  by (induction ds arbitrary: w) (simp_all add: revoke_draft_keeps)

lemma fold_revoke_all: "a \<in> set ds \<Longrightarrow> is_revoked (fold revoke_draft ds w) a"
  by (induction ds arbitrary: w) (auto simp: fold_revoke_keeps revoke_draft_self)

lemma revoke_scopeRevoked: "scopeRevoked sid (revoke sid w)"
  unfolding scopeRevoked_def list_all_iff
proof
  fix a assume "a \<in> set (drafts (scopes (revoke sid w) sid))"
  then have "a \<in> set (drafts (scopes w sid))" by simp
  then have "is_revoked (revoke sid w) a" by (simp add: revoke_def fold_revoke_all)
  then show "case heap (revoke sid w) a of Some (Draft st) \<Rightarrow> revoked st | _ \<Rightarrow> True"
    by (simp add: is_revoked_def)
qed

text \<open>
  C2. When an update on a draftable base fails because the recipe raises, or because
  the promise it returned rejects, \<open>produce\<close> ends in that error (no result), in a
  world where the owning scope has been revoked (every draft it owns is marked
  revoked) and where nothing has been handed to the patch listener.
\<close>

theorem produce_failure_revokes_scope:
  assumes "isDraftable w (Ref ba)"
  shows "(rcp (Ref (nextAddr w)) (recipeWorld ba w) = (Raise e, w3) \<longrightarrow>
           produce cfg n (Ref ba) rcp l w = Sync (Throw e (revoke (nextScope w) w3))
           \<and> scopeRevoked (nextScope w) (revoke (nextScope w) w3)
           \<and> delivered (revoke (nextScope w) w3) = delivered w3)
       \<and> (rcp (Ref (nextAddr w)) (recipeWorld ba w) = (ReturnPromise pr, w3) \<and> pr w4 = (Inl e, w5) \<longrightarrow>
           (\<exists>k. produce cfg n (Ref ba) rcp l w = Async (leave (nextScope w) w3) k
                \<and> k w4 = Throw e (revoke (nextScope w) w5))
           \<and> scopeRevoked (nextScope w) (revoke (nextScope w) w5)
           \<and> delivered (revoke (nextScope w) w5) = delivered w5)"
  using assms by (simp add: produce_draftable revoke_scopeRevoked)

lemma worldA_draftable: "isDraftable worldA (Ref 0)"
  by (simp add: isDraftable_def worldA_def world_of_def heapA_def)

lemma worldA_next: "nextScope worldA = 0" "nextAddr worldA = 2"
  by (simp_all add: worldA_def world_of_def)

theorem produce_failure_revokes_scope_witness:
  "isDraftable worldA (Ref 0)
   \<and> produce cfg0 0 (Ref 0) recipe_raise True worldA
       = Sync (Throw (RecipeError 7) (revoke 0 (recipeWorld 0 worldA)))
   \<and> scopeRevoked 0 (revoke 0 (recipeWorld 0 worldA))
   \<and> is_revoked (revoke 0 (recipeWorld 0 worldA)) 2
   \<and> drafts (scopes (recipeWorld 0 worldA) 0) = [2]
   \<and> delivered (revoke 0 (recipeWorld 0 worldA)) = []
   \<and> (\<exists>k. produce cfg0 0 (Ref 0) recipe_reject True worldA = Async (leave 0 (recipeWorld 0 worldA)) k
          \<and> k (recipeWorld 0 worldA) = Throw (RecipeError 7) (revoke 0 (recipeWorld 0 worldA)))"
proof -
  have d: "isDraftable worldA (Ref 0)" by (rule worldA_draftable)
  have r1: "recipe_raise (Ref (nextAddr worldA)) (recipeWorld 0 worldA) = (Raise (RecipeError 7), recipeWorld 0 worldA)"
    by (simp add: recipe_raise_def)
  have r2: "recipe_reject (Ref (nextAddr worldA)) (recipeWorld 0 worldA) = (ReturnPromise reject_later, recipeWorld 0 worldA)
            \<and> reject_later (recipeWorld 0 worldA) = (Inl (RecipeError 7), recipeWorld 0 worldA)"
    by (simp add: recipe_reject_def reject_later_def)
  have dr: "drafts (scopes (recipeWorld 0 worldA) 0) = [2]"
    by (simp add: recipeWorld_def createProxy_def enter_def worldA_def world_of_def scope0_def)
  have dl: "delivered (recipeWorld 0 worldA) = []"
    by (simp add: recipeWorld_def createProxy_def enter_def worldA_def world_of_def)
  have rv: "is_revoked (revoke 0 (recipeWorld 0 worldA)) 2"
    using dr by (simp add: revoke_def revoke_draft_self)
  from produce_failure_revokes_scope [OF d, where rcp = recipe_raise and e = "RecipeError 7"
         and ?w3.0 = "recipeWorld 0 worldA" and cfg = cfg0 and n = 0 and l = True]
       produce_failure_revokes_scope [OF d, where rcp = recipe_reject and e = "RecipeError 7"
         and ?w3.0 = "recipeWorld 0 worldA" and cfg = cfg0 and n = 0 and l = True
         and pr = reject_later and ?w4.0 = "recipeWorld 0 worldA" and ?w5.0 = "recipeWorld 0 worldA"]
       r1 r2 d dr dl rv
  show ?thesis by (simp add: worldA_next)
qed

lemma usePatches_heap [simp]: "heap (usePatches sid l w) = heap w"
  by (simp add: usePatches_def)

lemma usePatches_drafts [simp]: "drafts (scopes (usePatches sid l w) s) = drafts (scopes w s)"
  by (simp add: usePatches_def)

lemma usePatches_delivered [simp]: "delivered (usePatches sid l w) = delivered w"
  by (simp add: usePatches_def)

lemma state_of_heap_cong: "heap w' = heap w \<Longrightarrow> state_of w' v = state_of w v"
  by (simp add: state_of_def split: jsval.splits)

lemma state_of_usePatches [simp]: "state_of (usePatches sid l w) v = state_of w v"
  by (simp add: state_of_def split: jsval.splits)

lemma state_of_leave [simp]: "state_of (leave sid w) v = state_of w v"
  by (simp add: state_of_def split: jsval.splits)

lemma isDraftable_usePatches [simp]: "isDraftable (usePatches sid l w) v = isDraftable w v"
  by (simp add: isDraftable_def split: jsval.splits)

lemma isDraftable_leave [simp]: "isDraftable (leave sid w) v = isDraftable w v"
  by (simp add: isDraftable_def split: jsval.splits)

text \<open>
  C3. If the recipe returns a value other than undefined and other than its draft,
  and the root DraftState is modified when it returns, the update ends in the
  DoubleReturn error (no result), the scope is revoked in the world the error
  surfaces in, and nothing is handed to the patch listener.
\<close>

theorem produce_double_return:
  assumes "isDraftable w (Ref ba)"
    and "rcp (Ref (nextAddr w)) (recipeWorld ba w) = (Return result, w3)"
    and "result \<noteq> Undefined" and "result \<noteq> Ref (nextAddr w)"
    and "drafts (scopes w3 (nextScope w)) = nextAddr w # ds"
    and "state_of w3 (Ref (nextAddr w)) = Some st" and "modified st"
  shows "\<exists>w'. produce cfg n (Ref ba) rcp l w = Sync (Throw DoubleReturn w')
              \<and> scopeRevoked (nextScope w) w' \<and> delivered w' = delivered w3"
proof -
  let ?w4 = "usePatches (nextScope w) l (leave (nextScope w) w3)"
  have "produce cfg n (Ref ba) rcp l w = Sync (Throw DoubleReturn (revoke (nextScope w) ?w4))"
    using assms by (simp add: produce_draftable processResult_def)
  moreover have "scopeRevoked (nextScope w) (revoke (nextScope w) ?w4)"
    by (rule revoke_scopeRevoked)
  moreover have "delivered (revoke (nextScope w) ?w4) = delivered w3" by simp
  ultimately show ?thesis by blast
qed

lemma recipeWorldA:
  "recipeWorld 0 worldA =
     \<lparr>heap = heapA(2 \<mapsto> Draft (mkState 0 None False [] 0)),
      scopes = (\<lambda>i. scope0)(0 := scope0\<lparr>drafts := [2]\<rparr>), current = Some 0, nextAddr = 3, nextScope = 1,
      delivered = [], assignLog = [], deleteLog = [], copyLog = []\<rparr>"
  by (simp add: recipeWorld_def createProxy_def enter_def worldA_def world_of_def scope0_def mkState_def)

theorem produce_double_return_witness:
  "isDraftable worldA (Ref 0) \<and> Prim 5 \<noteq> Undefined \<and> Prim 5 \<noteq> Ref (nextAddr worldA)
   \<and> (\<exists>w'. produce cfg0 0 (Ref 0) (recipe_set_a_return (Prim 5)) True worldA = Sync (Throw DoubleReturn w')
          \<and> scopeRevoked 0 w' \<and> delivered w' = [])"
proof -
  have d: "isDraftable worldA (Ref 0)" by (rule worldA_draftable)
  obtain w3 where r: "recipe_set_a_return (Prim 5) (Ref (nextAddr worldA)) (recipeWorld 0 worldA) = (Return (Prim 5), w3)"
    and dr: "drafts (scopes w3 (nextScope worldA)) = nextAddr worldA # []"
    and st: "state_of w3 (Ref (nextAddr worldA)) = Some ((mkState 0 None False [] 0)\<lparr>copy := Some 3, modified := True, assigned := [(''a'', True)]\<rparr>)"
    and dl: "delivered w3 = []"
    by (simp add: recipe_set_a_return_def recipeWorldA worldA_next state_of_def scope0_def)
  have m: "modified ((mkState 0 None False [] 0)\<lparr>copy := Some 3, modified := True, assigned := [(''a'', True)]\<rparr>)"
    by simp
  have ne: "Prim 5 \<noteq> Undefined" "Prim 5 \<noteq> Ref (nextAddr worldA)" by simp_all
  from produce_double_return [where rcp = "recipe_set_a_return (Prim 5)" and w = worldA and ba = 0
         and cfg = cfg0 and n = 0 and l = True, OF d r ne dr st m] dl d
  show ?thesis by (simp add: worldA_next)
qed

lemma isDraftable_nonref [simp]:
  "\<not> isDraftable w Undefined" "\<not> isDraftable w NOTHING" "\<not> isDraftable w (Prim i)"
  by (simp_all add: isDraftable_def)

lemma finalize_unmodified:
  "state_of w v = Some st \<Longrightarrow> scope st = sid \<Longrightarrow> \<not> modified st \<Longrightarrow>
   finalize cfg n v pth sid w = Done (Ref (base st)) w"
  by (simp add: finalize_def finalize_of_def)

text \<open>
  C1, as the code has it. If the recipe of a draftable base returns undefined or its
  draft, and the root DraftState (still owned by the scope of the call, over the same
  base) is not modified when the recipe returns, then \<open>produce\<close> returns the base
  itself, whatever the fuel.
\<close>

theorem produce_unmodified_returns_base:
  assumes "isDraftable w (Ref ba)"
    and "rcp (Ref (nextAddr w)) (recipeWorld ba w) = (Return result, w3)"
    and "result = Undefined \<or> result = Ref (nextAddr w)"
    and "drafts (scopes w3 (nextScope w)) = nextAddr w # ds"
    and "state_of w3 (Ref (nextAddr w)) = Some st"
    and "\<not> modified st" and "scope st = nextScope w" and "base st = ba"
  shows "\<exists>w'. produce cfg n (Ref ba) rcp l w = Sync (Done (Ref ba) w')"
  using assms
  by (auto simp: produce_draftable processResult_def finalize_unmodified completeResult_def
      unwrapNothing_def)

theorem produce_unmodified_returns_base_witness:
  "isDraftable worldA (Ref 0)
   \<and> recipe_return Undefined (Ref (nextAddr worldA)) (recipeWorld 0 worldA)
        = (Return Undefined, recipeWorld 0 worldA)
   \<and> state_of (recipeWorld 0 worldA) (Ref (nextAddr worldA)) = Some (mkState 0 None False [] 0)
   \<and> \<not> modified (mkState 0 None False [] 0)
   \<and> (\<exists>w'. produce cfg0 0 (Ref 0) (recipe_return Undefined) True worldA = Sync (Done (Ref 0) w'))"
proof -
  have d: "isDraftable worldA (Ref 0)" by (rule worldA_draftable)
  have r: "recipe_return Undefined (Ref (nextAddr worldA)) (recipeWorld 0 worldA)
        = (Return Undefined, recipeWorld 0 worldA)"
    by (simp add: recipe_return_def)
  have dr: "drafts (scopes (recipeWorld 0 worldA) (nextScope worldA)) = nextAddr worldA # []"
    by (simp add: recipeWorldA worldA_next)
  have st: "state_of (recipeWorld 0 worldA) (Ref (nextAddr worldA)) = Some (mkState 0 None False [] 0)"
    by (simp add: recipeWorldA worldA_next state_of_def)
  have m: "\<not> modified (mkState 0 None False [] 0)" "scope (mkState 0 None False [] 0) = nextScope worldA"
    "base (mkState 0 None False [] 0) = 0"
    by (simp_all add: mkState_def worldA_next)
  have u: "Undefined = Undefined \<or> Undefined = Ref (nextAddr worldA)" by simp
  from produce_unmodified_returns_base [where rcp = "recipe_return Undefined" and w = worldA
         and ba = 0 and cfg = cfg0 and n = 0 and l = True, OF d r u dr st m] d r st m
  show ?thesis by simp
qed

theorem produce_unmodified_replacement_counterexample:
  "isDraftable worldA (Ref 0)
   \<and> recipe_return (Prim 42) (Ref 2) (recipeWorld 0 worldA) = (Return (Prim 42), recipeWorld 0 worldA)
   \<and> state_of (recipeWorld 0 worldA) (Ref 2) = Some (mkState 0 None False [] 0)
   \<and> \<not> modified (mkState 0 None False [] 0)
   \<and> result_of (produce cfg0 0 (Ref 0) (recipe_return (Prim 42)) False worldA) = Some (Prim 42)
   \<and> Prim 42 \<noteq> Ref 0"
  by (simp add: worldA_draftable produce_draftable worldA_next recipe_return_def recipeWorldA
      state_of_def processResult_def usePatches_def leave_def completeResult_def
      unwrapNothing_def pushReplace_def result_of_def scope0_def mkState_def)

text \<open>
  C9, as the code has it. For a base that is not draftable the recipe is called on the
  base itself, in the caller's world: no scope is entered and no draft is created, so
  the world \<open>produce\<close> ends in is the one the recipe left. A recipe that returns
  undefined yields the base itself; one that returns the \<open>NOTHING\<close> sentinel yields
  undefined; any other return value is the result.
\<close>

theorem produce_opaque_base:
  assumes "\<not> isDraftable w b" and "rcp b w = (Return result, w1)"
  shows "produce cfg n b rcp l w =
           Sync (Done (if result = Undefined then b
                       else if result = NOTHING then Undefined else result) w1)"
  using assms by (simp add: produce_def unwrapNothing_def)

theorem produce_opaque_base_witness:
  "\<not> isDraftable worldA (Prim 5)
   \<and> recipe_return (Prim 6) (Prim 5) worldA = (Return (Prim 6), worldA)
   \<and> produce cfg0 0 (Prim 5) (recipe_return (Prim 6)) False worldA = Sync (Done (Prim 6) worldA)"
proof -
  have r: "recipe_return (Prim 6) (Prim 5) worldA = (Return (Prim 6), worldA)"
    by (simp add: recipe_return_def)
  from produce_opaque_base [where rcp = "recipe_return (Prim 6)" and cfg = cfg0 and n = 0
         and l = False, OF isDraftable_nonref(3) [of worldA 5] r] isDraftable_nonref(3) [of worldA 5] r
  show ?thesis by simp
qed

theorem produce_opaque_nothing_counterexample:
  "\<not> isDraftable worldA (Prim 5)
   \<and> recipe_return NOTHING (Prim 5) worldA = (Return NOTHING, worldA)
   \<and> result_of (produce cfg0 0 (Prim 5) (recipe_return NOTHING) False worldA) = Some Undefined
   \<and> Undefined \<noteq> NOTHING"
  by (simp add: isDraftable_def produce_def recipe_return_def unwrapNothing_def result_of_def)

text \<open>
  C10, as the code has it. A recipe that returns the \<open>NOTHING\<close> sentinel makes
  \<open>produce\<close> return undefined: always for a base that is not draftable, and for a
  draftable base when the root DraftState is not modified at the return.
\<close>

theorem produce_nothing_returns_undefined:
  "(\<not> isDraftable w b \<and> rcp b w = (Return NOTHING, w1) \<longrightarrow>
      produce cfg n b rcp l w = Sync (Done Undefined w1))
   \<and> (isDraftable w (Ref ba) \<and> rcp (Ref (nextAddr w)) (recipeWorld ba w) = (Return NOTHING, w3)
        \<and> drafts (scopes w3 (nextScope w)) = nextAddr w # ds
        \<and> state_of w3 (Ref (nextAddr w)) = Some st \<and> \<not> modified st \<longrightarrow>
      (\<exists>w'. produce cfg n (Ref ba) rcp l w = Sync (Done Undefined w')))"
proof -
  have "\<not> isDraftable w b \<Longrightarrow> rcp b w = (Return NOTHING, w1) \<Longrightarrow>
      produce cfg n b rcp l w = Sync (Done Undefined w1)"
    by (simp add: produce_def unwrapNothing_def)
  moreover have "isDraftable w (Ref ba) \<Longrightarrow>
        rcp (Ref (nextAddr w)) (recipeWorld ba w) = (Return NOTHING, w3) \<Longrightarrow>
        drafts (scopes w3 (nextScope w)) = nextAddr w # ds \<Longrightarrow>
        state_of w3 (Ref (nextAddr w)) = Some st \<Longrightarrow> \<not> modified st \<Longrightarrow>
      (\<exists>w'. produce cfg n (Ref ba) rcp l w = Sync (Done Undefined w'))"
    by (simp add: produce_draftable processResult_def completeResult_def unwrapNothing_def)
  ultimately show ?thesis by blast
qed

theorem produce_nothing_returns_undefined_witness:
  "\<not> isDraftable worldA (Prim 5)
   \<and> produce cfg0 0 (Prim 5) (recipe_return NOTHING) True worldA = Sync (Done Undefined worldA)
   \<and> isDraftable worldA (Ref 0)
   \<and> state_of (recipeWorld 0 worldA) (Ref (nextAddr worldA)) = Some (mkState 0 None False [] 0)
   \<and> \<not> modified (mkState 0 None False [] 0)
   \<and> (\<exists>w'. produce cfg0 0 (Ref 0) (recipe_return NOTHING) True worldA = Sync (Done Undefined w'))"
proof -
  have r1: "recipe_return NOTHING (Prim 5) worldA = (Return NOTHING, worldA)"
    by (simp add: recipe_return_def)
  have r2: "recipe_return NOTHING (Ref (nextAddr worldA)) (recipeWorld 0 worldA)
        = (Return NOTHING, recipeWorld 0 worldA)"
    by (simp add: recipe_return_def)
  have dr: "drafts (scopes (recipeWorld 0 worldA) (nextScope worldA)) = nextAddr worldA # []"
    by (simp add: recipeWorldA worldA_next)
  have st: "state_of (recipeWorld 0 worldA) (Ref (nextAddr worldA)) = Some (mkState 0 None False [] 0)"
    by (simp add: recipeWorldA worldA_next state_of_def)
  have m: "\<not> modified (mkState 0 None False [] 0)"
    by (simp add: mkState_def)
  from produce_nothing_returns_undefined [where rcp = "recipe_return NOTHING" and w = worldA
         and b = "Prim 5" and ?w1.0 = worldA and cfg = cfg0 and n = 0 and l = True
         and ba = 0 and ?w3.0 = "recipeWorld 0 worldA" and ds = "[]"
         and st = "mkState 0 None False [] 0"]
       isDraftable_nonref(3) [of worldA 5] worldA_draftable r1 r2 dr st m
  show ?thesis by simp
qed

theorem produce_nothing_modified_counterexample:
  "isDraftable worldA (Ref 0)
   \<and> fst (recipe_set_a_return NOTHING (Ref 2) (recipeWorld 0 worldA)) = Return NOTHING
   \<and> error_of (produce cfg0 0 (Ref 0) (recipe_set_a_return NOTHING) False worldA) = Some DoubleReturn
   \<and> result_of (produce cfg0 0 (Ref 0) (recipe_set_a_return NOTHING) False worldA) = None"
  by (simp add: worldA_draftable produce_draftable worldA_next recipe_set_a_return_def recipeWorldA
      state_of_def processResult_def usePatches_def leave_def scope0_def mkState_def
      error_of_def result_of_def)

lemma finishDraft_guards:
  "state_of w d = None \<Longrightarrow> finishDraft cfg n d l w = Throw NotADraft w"
  "state_of w d = Some st \<Longrightarrow> \<not> customDraft st \<Longrightarrow> finishDraft cfg n d l w = Throw NotCreatedByCreateDraft w"
  "state_of w d = Some st \<Longrightarrow> customDraft st \<Longrightarrow> finalized st \<Longrightarrow> finishDraft cfg n d l w = Throw AlreadyFinalized w"
  by (simp_all add: finishDraft_def)

lemma finishDraft_twice_modified:
  "map_prod outcome_value outcome_error
     (finishDraft_twice cfg0 1 (Ref 0) (recipe_set_a_return Undefined) worldA)
   = (Some (Ref 3), Some AlreadyFinalized)"
  by code_simp


lemma produce_plain_self_reference:
  "error_of (produce cfg0 2 (Ref 0) recipe_plain_self False worldA) = Some CyclicReference"
  by code_simp

text \<open>
  C6, at the input where the code departs from it: the recipe \<open>draft.self = draft\<close> on
  the base \<open>{a: 1, b: {c: 2}}\<close>. The root draft is at address 2 and its copy at
  address 3. \<open>finalizeProperty\<close> compares the property value (the draft handle) with
  the parent (the copy), finds them different, and replaces the handle by the
  finalized copy: the update succeeds, and its result holds itself under \<open>self\<close>.
\<close>

theorem produce_draft_self_reference:
  "result_of (produce cfg0 1 (Ref 0) recipe_self False worldA) = Some (Ref 3)
   \<and> error_of (produce cfg0 1 (Ref 0) recipe_self False worldA) = None
   \<and> map_option (\<lambda>w. lookup_prop (props_of w 3) ''self'')
        (world_after (produce cfg0 1 (Ref 0) recipe_self False worldA)) = Some (Ref 3)"
  by code_simp

lemma each_loop_keeps:
  assumes "\<forall>w. R w w" and "\<forall>a b c. R a b \<longrightarrow> R b c \<longrightarrow> R a c" and "cb_keeps R cb"
  shows "each_loop cb par ks w = Done u w' \<Longrightarrow> R w w'"
proof (induction ks arbitrary: w)
  case Nil
  then show ?case using assms(1) by simp
next
  case (Cons k ks)
  from Cons.prems obtain u1 w1 where
    s1: "cb k (lookup_prop (props_of w par) k) par w = Done u1 w1"
    and s2: "each_loop cb par ks w1 = Done u w'"
    by (auto split: outcome.splits)
  from s1 assms(3) have "R w w1" by (auto simp: cb_keeps_def)
  moreover from s2 have "R w1 w'" by (rule Cons.IH)
  ultimately show ?case using assms(2) by blast
qed

lemma each_keeps:
  assumes "kept_by_steps cfg sid R G C" and "cb_keeps R cb" and "each cb a w = Done u w'"
  shows "R w w'"
  using each_loop_keeps [of R cb a _ w u w'] assms
  by (simp add: each_def kept_by_steps_def)

lemma finalizeTree_of_keeps:
  assumes k: "kept_by_steps cfg sid R G C" and fp: "\<forall>c. C c \<longrightarrow> cb_keeps R (fp c)"
    and g: "G pth" and d: "finalizeTree_of fp root pth sid w = Done r w'"
  shows "R w w'"
proof -
  have cc: "\<And>ra c b. C \<lparr>cstate = ra, croot = c, crootPath = pth, cneedPatches = (pth \<noteq> None \<and> b)\<rparr>"
    using k g by (simp add: kept_by_steps_def)
  have rf: "R w w" using k by (simp add: kept_by_steps_def)
  show ?thesis
  proof (cases "\<exists>ra. root = Ref ra")
    case False
    with d rf show ?thesis by (cases root) (auto simp: finalizeTree_of_def)
  next
    case True
    then obtain ra where Ref: "root = Ref ra" by blast
    show ?thesis
    proof (cases "state_of w root")
      case None
      with d Ref obtain u where
        "each (fp \<lparr>cstate = None, croot = ra, crootPath = pth,
                    cneedPatches = (pth \<noteq> None \<and> patches (scopes w sid) \<noteq> None)\<rparr>) ra w = Done u w'"
        by (auto simp: finalizeTree_of_def split: outcome.splits)
      then show ?thesis using each_keeps [OF k] fp cc by blast
    next
      case (Some st)
      with d Ref obtain u c where
        "each (fp \<lparr>cstate = Some ra, croot = c, crootPath = pth,
                    cneedPatches = (pth \<noteq> None \<and> patches (scopes w sid) \<noteq> None)\<rparr>) c w = Done u w'"
        by (auto simp: finalizeTree_of_def split: outcome.splits option.splits)
      then show ?thesis using each_keeps [OF k] fp cc by blast
    qed
  qed
qed

lemma finalize_of_keeps:
  assumes k: "kept_by_steps cfg sid R G C" and fp: "\<forall>c. C c \<longrightarrow> cb_keeps R (fp c)"
    and g: "G pth" and d: "finalize_of cfg fp v pth sid w = Done r w'"
  shows "R w w'"
proof -
  have rf: "R w w" using k by (simp add: kept_by_steps_def)
  have tr0: "\<forall>a b c. R a b \<longrightarrow> R b c \<longrightarrow> R a c" using k by (simp add: kept_by_steps_def)
  have tr: "\<And>a b c. R a b \<Longrightarrow> R b c \<Longrightarrow> R a c" using tr0 by blast
  have gn: "G None" using k by (simp add: kept_by_steps_def)
  show ?thesis
  proof (cases "state_of w v")
    case None
    show ?thesis
    proof (cases "isFrozen w v")
      case True
      with d None rf show ?thesis by (simp add: finalize_of_def)
    next
      case False
      with d None have "finalizeTree_of fp v None sid w = Done r w'" by (simp add: finalize_of_def)
      then show ?thesis by (rule finalizeTree_of_keeps [OF k fp gn])
    qed
  next
    case (Some st)
    show ?thesis
    proof (cases "scope st \<noteq> sid \<or> \<not> modified st \<or> finalized st")
      case True
      with d Some rf show ?thesis by (auto simp: finalize_of_def split: if_splits)
    next
      case False
      from Some obtain a where va: "v = Ref a" by (auto simp: state_of_def split: jsval.splits)
      from d Some False va obtain r1 w1 where
        t: "finalizeTree_of fp (Ref a) pth sid (set_finalized a st w) = Done r1 w1"
        and e: "w' = finishFinalize cfg sid a pth w1"
        by (auto simp: finalize_of_def Let_def split: outcome.splits)
      have "R w (set_finalized a st w)" using k by (simp add: kept_by_steps_def)
      moreover have "R (set_finalized a st w) w1" using t by (rule finalizeTree_of_keeps [OF k fp g])
      moreover have "R w1 w'" using k g e by (simp add: kept_by_steps_def)
      ultimately show ?thesis using tr by blast
    qed
  qed
qed

lemma finalizeProperty_keeps:
  assumes k: "kept_by_steps cfg sid R G C"
  shows "C c \<Longrightarrow> finalizeProperty cfg sid n c ky v pa w = Done u w' \<Longrightarrow> R w w'"
proof (induction n arbitrary: c ky v pa w u w')
  case 0
  then show ?case by simp
next
  case (Suc n)
  have rf: "\<And>w. R w w" using k by (simp add: kept_by_steps_def)
  have tr0: "\<forall>a b c. R a b \<longrightarrow> R b c \<longrightarrow> R a c" using k by (simp add: kept_by_steps_def)
  have tr: "\<And>a b c. R a b \<Longrightarrow> R b c \<Longrightarrow> R a c" using tr0 by blast
  have fa: "\<And>c pa ky v w. R w (fireOnAssign cfg c pa ky v w)" using k by (simp add: kept_by_steps_def)
  have wp: "\<forall>w a k v w'. write_prop w a k v = Some w' \<longrightarrow> R w w'" using k by (simp add: kept_by_steps_def)
  have fp: "\<forall>c. C c \<longrightarrow> cb_keeps R (finalizeProperty cfg sid n c)"
    using Suc.IH by (auto simp: cb_keeps_def)
  from Suc.prems(2) have ne: "v \<noteq> Ref pa" by (auto split: if_splits)
  show ?case
  proof (cases "isDraft w v")
    case True
    from Suc.prems(2) ne True obtain v' w1 w3 where
      f: "finalize_of cfg (finalizeProperty cfg sid n) v (childPath w c pa ky) sid w = Done v' w1"
      and wr: "write_prop (if isDraft w1 v' then set_canAutoFreeze sid False w1 else w1) pa ky v' = Some w3"
      and e: "w' = w3 \<or> w' = fireOnAssign cfg c pa ky v' w3"
      by (auto simp: Let_def split: outcome.splits option.splits if_splits)
    have g: "G (childPath w c pa ky)" using k Suc.prems(1) by (simp add: kept_by_steps_def)
    have "R w w1" using f by (rule finalize_of_keeps [OF k fp g])
    moreover have "R w1 (if isDraft w1 v' then set_canAutoFreeze sid False w1 else w1)"
      using k by (simp add: kept_by_steps_def)
    moreover have "R (if isDraft w1 v' then set_canAutoFreeze sid False w1 else w1) w3"
      using wp wr by blast
    moreover have "R w3 w'" using e rf fa by auto
    ultimately show ?thesis using tr by blast
  next
    case False
    show ?thesis
    proof (cases "unchangedProp w c pa ky v")
      case True
      with Suc.prems(2) ne False rf show ?thesis by simp
    next
      case u: False
      show ?thesis
      proof (cases "isDraftable w v \<and> \<not> isFrozen w v")
        case True
        then obtain va where va: "v = Ref va" by (auto simp: isDraftable_def split: jsval.splits)
        from Suc.prems(2) ne False u True va obtain u1 w1 where
          ea: "each (finalizeProperty cfg sid n c) va w = Done u1 w1"
          and e: "w' = fireOnAssign cfg c pa ky v w1"
          by (auto split: outcome.splits)
        have "cb_keeps R (finalizeProperty cfg sid n c)" using fp Suc.prems(1) by simp
        then have "R w w1" using each_keeps [OF k _ ea] by simp
        then show ?thesis using e fa tr by blast
      next
        case False
        with Suc.prems(2) ne \<open>\<not> isDraft w v\<close> u fa show ?thesis by auto
      qed
    qed
  qed
qed



lemma same_patches_freeze: "same_patches sid w (freeze a w)"
  by (simp add: freeze_def same_patches_def split: option.splits cell.splits)








lemma lookup_set_prop [simp]: "lookup_prop (set_prop ps k v) k = v"
  by (induction ps) auto

lemma stays_disabled_kept:
  "kept_by_steps cfg sid (stays_disabled sid) (\<lambda>p. True) (\<lambda>c. True)"
  unfolding kept_by_steps_def
proof (intro conjI allI impI)
  fix w a k v w' assume "write_prop w a k v = Some w'"
  then show "stays_disabled sid w w'"
    by (auto simp: write_prop_def stays_disabled_def split: option.splits cell.splits if_splits)
next
  fix a and pth :: "key list option" and w
  show "stays_disabled sid w (finishFinalize cfg sid a pth w)"
    by (simp add: finishFinalize_def pushPatches_def autoFreezeCopy_def fireOnCopy_def
      fireOnDelete_def freeze_def stays_disabled_def Let_def
      split: option.splits cell.splits prod.splits)
qed (simp_all add: stays_disabled_def set_finalized_def set_canAutoFreeze_def fireOnAssign_def
      split: option.splits)

lemma finalize_foreign:
  "state_of w v = Some st \<Longrightarrow> scope st \<noteq> sid \<Longrightarrow> finalize cfg n v pth sid w = Done v w"
  by (simp add: finalize_def finalize_of_def)

lemma finishFinalize_disabled:
  "\<not> canAutoFreeze (scopes w sid) \<Longrightarrow> heap (finishFinalize cfg sid a pth w) = heap w"
  by (simp add: finishFinalize_def pushPatches_def autoFreezeCopy_def fireOnCopy_def
      fireOnDelete_def Let_def split: option.splits prod.splits)

lemma finalizeProperty_foreign:
  assumes s: "state_of w v = Some st" and f: "scope st \<noteq> sid"
    and ne: "v \<noteq> Ref pa" and h: "heap w pa = Some (Plain ps False)"
  shows "\<exists>w1. finalizeProperty cfg sid (Suc n) c ky v pa w = Done () w1
              \<and> \<not> canAutoFreeze (scopes w1 sid) \<and> lookup_prop (props_of w1 pa) ky = v"
proof -
  let ?w2 = "set_canAutoFreeze sid False w"
  let ?w3 = "?w2\<lparr>heap := (heap ?w2)(pa \<mapsto> Plain (set_prop ps ky v) False)\<rparr>"
  have fin: "finalize_of cfg (finalizeProperty cfg sid n) v (childPath w c pa ky) sid w = Done v w"
    using s f by (simp add: finalize_of_def)
  have d: "isDraft w v" using s by (simp add: isDraft_def)
  have wr: "write_prop ?w2 pa ky v = Some ?w3"
    using h by (simp add: write_prop_def set_canAutoFreeze_def)
  have "finalizeProperty cfg sid (Suc n) c ky v pa w = Done () ?w3
        \<or> finalizeProperty cfg sid (Suc n) c ky v pa w = Done () (fireOnAssign cfg c pa ky v ?w3)"
    using ne d fin wr by (simp add: Let_def)
  moreover have "\<not> canAutoFreeze (scopes ?w3 sid)" by (simp add: set_canAutoFreeze_def)
  moreover have "\<not> canAutoFreeze (scopes (fireOnAssign cfg c pa ky v ?w3) sid)"
    by (simp add: set_canAutoFreeze_def fireOnAssign_def split: option.splits)
  moreover have "lookup_prop (props_of ?w3 pa) ky = v" by (simp add: props_of_def)
  moreover have "lookup_prop (props_of (fireOnAssign cfg c pa ky v ?w3) pa) ky = v"
    by (simp add: props_of_def fireOnAssign_def split: option.splits)
  ultimately show ?thesis by blast
qed

lemma each_loop_stays_disabled:
  assumes "each_loop (finalizeProperty cfg sid m c) pa ks w = Done u w'"
    and "\<not> canAutoFreeze (scopes w sid)"
  shows "\<not> canAutoFreeze (scopes w' sid)"
proof -
  have "cb_keeps (stays_disabled sid) (finalizeProperty cfg sid m c)"
    using finalizeProperty_keeps [OF stays_disabled_kept] by (auto simp: cb_keeps_def)
  from each_loop_keeps [OF _ _ this assms(1)] assms(2)
  show ?thesis by (auto simp: stays_disabled_def)
qed

text \<open>
  C5. A draft whose state belongs to another scope is returned by \<open>finalize\<close> as it
  is, in an unchanged world (no copy, no patches). When \<open>finalizeProperty\<close> meets it
  as a property value it stays in place and auto-freeze is disabled for the scope;
  through the rest of the walk the flag stays off, and the tail of an enclosing
  \<open>finalize\<close> then leaves the heap as it is: the copy is not frozen, whatever
  \<open>autoFreeze\<close> says.
\<close>

theorem foreign_draft_disables_autoFreeze:
  assumes "state_of w v = Some st" and "scope st \<noteq> sid"
  shows "finalize cfg n v pth sid w = Done v w
     \<and> (v \<noteq> Ref pa \<and> heap w pa = Some (Plain ps False) \<longrightarrow>
          (\<exists>w1. finalizeProperty cfg sid (Suc n) c ky v pa w = Done () w1
             \<and> \<not> canAutoFreeze (scopes w1 sid) \<and> lookup_prop (props_of w1 pa) ky = v
             \<and> (\<forall>ks u w2 a pth2. each_loop (finalizeProperty cfg sid m c) pa ks w1 = Done u w2 \<longrightarrow>
                   \<not> canAutoFreeze (scopes w2 sid)
                   \<and> heap (finishFinalize cfg sid a pth2 w2) = heap w2)))"
proof (intro conjI impI)
  show "finalize cfg n v pth sid w = Done v w" using assms by (rule finalize_foreign)
next
  assume a: "v \<noteq> Ref pa \<and> heap w pa = Some (Plain ps False)"
  from finalizeProperty_foreign [OF assms, of pa ps cfg n c ky] a obtain w1 where
    w1: "finalizeProperty cfg sid (Suc n) c ky v pa w = Done () w1"
      "\<not> canAutoFreeze (scopes w1 sid)" "lookup_prop (props_of w1 pa) ky = v"
    by blast
  have "\<forall>ks u w2 a pth2. each_loop (finalizeProperty cfg sid m c) pa ks w1 = Done u w2 \<longrightarrow>
                   \<not> canAutoFreeze (scopes w2 sid)
                   \<and> heap (finishFinalize cfg sid a pth2 w2) = heap w2"
    using each_loop_stays_disabled [OF _ w1(2)] finishFinalize_disabled by blast
  with w1 show "\<exists>w1. finalizeProperty cfg sid (Suc n) c ky v pa w = Done () w1
             \<and> \<not> canAutoFreeze (scopes w1 sid) \<and> lookup_prop (props_of w1 pa) ky = v
             \<and> (\<forall>ks u w2 a pth2. each_loop (finalizeProperty cfg sid m c) pa ks w1 = Done u w2 \<longrightarrow>
                   \<not> canAutoFreeze (scopes w2 sid)
                   \<and> heap (finishFinalize cfg sid a pth2 w2) = heap w2)"
    by blast
qed

lemma produce_foreign_not_frozen:
  "result_of (produce cfg0 1 (Ref 0) recipe_set_foreign False worldF) = Some (Ref 3)
   \<and> map_option (\<lambda>w. (heap w 3, canAutoFreeze (scopes w 0)))
        (world_after (produce cfg0 1 (Ref 0) recipe_set_foreign False worldF))
      = Some (Some (Plain [(''a'', Prim 1), (''f'', Ref 1)] False), False)
   \<and> autoFreeze cfg0"
  by code_simp

theorem foreign_draft_disables_autoFreeze_witness:
  "state_of worldP (Ref 1) = Some (mkState 0 None False [] 7)
   \<and> scope (mkState 0 None False [] 7) \<noteq> 0
   \<and> Ref 1 \<noteq> Ref 2 \<and> heap worldP 2 = Some (Plain [(''f'', Ref 1)] False)
   \<and> finalize cfg0 0 (Ref 1) None 0 worldP = Done (Ref 1) worldP
   \<and> (\<exists>w1. finalizeProperty cfg0 0 (Suc 0) (plain_ctx 2) ''f'' (Ref 1) 2 worldP = Done () w1
          \<and> \<not> canAutoFreeze (scopes w1 0) \<and> lookup_prop (props_of w1 2) ''f'' = Ref 1
          \<and> each_loop (finalizeProperty cfg0 0 0 (plain_ctx 2)) 2 [] w1 = Done () w1
          \<and> heap (finishFinalize cfg0 0 1 None w1) = heap w1)"
proof -
  have s: "state_of worldP (Ref 1) = Some (mkState 0 None False [] 7)"
    by (simp add: state_of_def worldP_def world_of_def heapP_def heapF_def)
  have f: "scope (mkState 0 None False [] 7) \<noteq> 0" by (simp add: mkState_def)
  have h: "Ref 1 \<noteq> Ref 2 \<and> heap worldP 2 = Some (Plain [(''f'', Ref 1)] False)"
    by (simp add: worldP_def world_of_def heapP_def)
  from foreign_draft_disables_autoFreeze [OF s f, where cfg = cfg0 and n = 0 and pth = None
         and pa = 2 and ps = "[(''f'', Ref 1)]" and c = "plain_ctx 2" and ky = "''f''" and m = 0] h
  obtain w1 where a: "finalize cfg0 0 (Ref 1) None 0 worldP = Done (Ref 1) worldP"
    and b: "finalizeProperty cfg0 0 (Suc 0) (plain_ctx 2) ''f'' (Ref 1) 2 worldP = Done () w1"
      "\<not> canAutoFreeze (scopes w1 0)" "lookup_prop (props_of w1 2) ''f'' = Ref 1"
    and r: "\<forall>ks u w2 a pth2. each_loop (finalizeProperty cfg0 0 0 (plain_ctx 2)) 2 ks w1 = Done u w2 \<longrightarrow>
                   \<not> canAutoFreeze (scopes w2 0)
                   \<and> heap (finishFinalize cfg0 0 a pth2 w2) = heap w2"
    by blast
  have e: "each_loop (finalizeProperty cfg0 0 0 (plain_ctx 2)) 2 [] w1 = Done () w1" by simp
  from r e have "heap (finishFinalize cfg0 0 1 None w1) = heap w1" by blast
  with s f h a b e show ?thesis by blast
qed




lemma freeze_scopes [simp]: "scopes (freeze c w) = scopes w"
  by (cases "heap w c") (auto simp: freeze_def split: cell.splits)


lemma autoFreezeCopy_scopes [simp]: "scopes (autoFreezeCopy cfg sid st0 w) = scopes w"
  by (cases "copy st0") (simp_all add: autoFreezeCopy_def)

lemma pushPatches_heap [simp]: "heap (pushPatches cfg sid st0 pth w) = heap w"
  by (simp add: pushPatches_def split: option.splits prod.splits)


lemma fireOnCopy_simps [simp]:
  "heap (fireOnCopy cfg a w) = heap w" "scopes (fireOnCopy cfg a w) = scopes w"
  by (simp_all add: fireOnCopy_def)

lemma fireOnDelete_simps [simp]:
  "heap (fireOnDelete cfg a st w) = heap w" "scopes (fireOnDelete cfg a st w) = scopes w"
  by (simp_all add: fireOnDelete_def)

lemma fireOnAssign_simps [simp]:
  "heap (fireOnAssign cfg c pa ky v w) = heap w" "scopes (fireOnAssign cfg c pa ky v w) = scopes w"
  "delivered (fireOnAssign cfg c pa ky v w) = delivered w"
  by (simp_all add: fireOnAssign_def split: option.splits)















lemma set_canAutoFreeze_patches [simp]:
  "patches (scopes (set_canAutoFreeze sid b w) sid) = patches (scopes w sid)"
  "inversePatches (scopes (set_canAutoFreeze sid b w) sid) = inversePatches (scopes w sid)"
  "delivered (set_canAutoFreeze sid b w) = delivered w"
  "heap (set_canAutoFreeze sid b w) = heap w"
  by (simp_all add: set_canAutoFreeze_def)









end
